theory Spec2Isabelle
  imports Main "HOL-Library.Word" "HOL-Library.Multiset" "HOL-Library.List_Lexorder"
begin

section \<open>JavaScript strings and the string primitives the extension calls\<close>

text \<open>
  A JavaScript string is a sequence of UTF-16 code units. \<open>utf16\<close> writes an ASCII
  literal as code units. The primitives below are the ECMAScript ones that
  \<^verbatim>\<open>extension.ts\<close> calls on the content of \<^verbatim>\<open>.git/info/exclude\<close>:
  \<^verbatim>\<open>String.prototype.trim\<close>, \<^verbatim>\<open>split('\n')\<close>, \<^verbatim>\<open>join('\n')\<close>,
  \<^verbatim>\<open>startsWith\<close> and \<^verbatim>\<open>replace(/\\/g, '/')\<close>.
\<close>

type_synonym jschar = "16 word"
type_synonym jsstring = "jschar list"

definition utf16 :: "string \<Rightarrow> jsstring" where
  "utf16 s = map of_char s"

abbreviation LF :: jschar where
  "LF \<equiv> 0x0A"

text \<open>
  The code units \<^verbatim>\<open>trim\<close> strips: ECMAScript WhiteSpace (TAB, VT, FF, SP, NBSP,
  ZWNBSP and the Unicode space separators) and LineTerminator (LF, CR, LS, PS).
\<close>

definition isWhiteSpace :: "jschar \<Rightarrow> bool" where
  "isWhiteSpace c \<longleftrightarrow>
     c \<in> {0x09, 0x0A, 0x0B, 0x0C, 0x0D, 0x20, 0xA0, 0x1680, 0x2028, 0x2029,
          0x202F, 0x205F, 0x3000, 0xFEFF}
     \<or> (0x2000 \<le> c \<and> c \<le> 0x200A)"

definition trimStart :: "jsstring \<Rightarrow> jsstring" where
  "trimStart s = dropWhile isWhiteSpace s"

definition trimEnd :: "jsstring \<Rightarrow> jsstring" where
  "trimEnd s = rev (dropWhile isWhiteSpace (rev s))"

definition trim :: "jsstring \<Rightarrow> jsstring" where
  "trim s = trimEnd (trimStart s)"

text \<open>
  \<^verbatim>\<open>s.split('\n')\<close>: always at least one piece; \<^verbatim>\<open>''.split('\n')\<close> is \<^verbatim>\<open>['']\<close>.
  A code unit other than LF goes in front of the first piece of the rest (the rest
  always has one, so the branch for no piece is never taken).
\<close>

fun split_lf :: "jsstring \<Rightarrow> jsstring list" where
  "split_lf [] = [[]]"
| "split_lf (c # cs) =
     (if c = LF then [] # split_lf cs
      else (case split_lf cs of [] \<Rightarrow> [[c]] | l # ls \<Rightarrow> (c # l) # ls))"

text \<open>\<^verbatim>\<open>lines.join('\n')\<close>: the empty array joins to the empty string.\<close>

fun join_lf :: "jsstring list \<Rightarrow> jsstring" where
  "join_lf [] = []"
| "join_lf [l] = l"
| "join_lf (l # ls) = l @ LF # join_lf ls"

definition startsWith :: "jsstring \<Rightarrow> jsstring \<Rightarrow> bool" where
  "startsWith s p \<longleftrightarrow> take (length p) s = p"

text \<open>\<^verbatim>\<open>relativePath.replace(/\\/g, '/')\<close>: every backslash becomes a slash.\<close>

definition replaceBackslashes :: "jsstring \<Rightarrow> jsstring" where
  "replaceBackslashes s = map (\<lambda>c. if c = 0x5C then 0x2F else c) s"

text \<open>
  The source reads and writes the file as \<^verbatim>\<open>'utf8'\<close>. Encoding replaces every
  unpaired surrogate by U+FFFD and keeps everything else, and decoding never yields an
  unpaired surrogate: a string comes back from the file as \<open>toWellFormed\<close> of it
  (\<^verbatim>\<open>String.prototype.toWellFormed\<close>), and the text of any file is \<open>wellFormed\<close>
  (\<^verbatim>\<open>String.prototype.isWellFormed\<close>).
\<close>

definition isHighSurrogate :: "jschar \<Rightarrow> bool" where
  "isHighSurrogate c \<longleftrightarrow> 0xD800 \<le> c \<and> c \<le> 0xDBFF"

definition isLowSurrogate :: "jschar \<Rightarrow> bool" where
  "isLowSurrogate c \<longleftrightarrow> 0xDC00 \<le> c \<and> c \<le> 0xDFFF"

fun toWellFormed :: "jsstring \<Rightarrow> jsstring" where
  "toWellFormed [] = []"
| "toWellFormed [c] = (if isHighSurrogate c \<or> isLowSurrogate c then [0xFFFD] else [c])"
| "toWellFormed (c # d # cs) =
     (if isHighSurrogate c \<and> isLowSurrogate d then c # d # toWellFormed cs
      else (if isHighSurrogate c \<or> isLowSurrogate c then 0xFFFD else c) # toWellFormed (d # cs))"

fun wellFormed :: "jsstring \<Rightarrow> bool" where
  "wellFormed [] = True"
| "wellFormed [c] = (\<not> isHighSurrogate c \<and> \<not> isLowSurrogate c)"
| "wellFormed (c # d # cs) =
     (if isHighSurrogate c then isLowSurrogate d \<and> wellFormed cs
      else \<not> isLowSurrogate c \<and> wellFormed (d # cs))"

section \<open>The host: workspace, file system, notifications\<close>

text \<open>
  What \<^verbatim>\<open>fs\<close> finds at a path:
  \<^item> \<open>Absent\<close>: nothing, and the entry can be created once its directory exists;
  \<^item> \<open>File c\<close>: a regular file whose bytes decode (UTF-8) to the text \<open>c\<close>;
  \<^item> \<open>Directory\<close>: a directory;
  \<^item> \<open>Blocked\<close>: nothing, and nothing can be created: an ancestor of the path is a
    regular file (\<^verbatim>\<open>.git\<close> of a worktree or submodule), or the path is a dangling
    link into a missing directory.

  \<^verbatim>\<open>existsSync\<close> is true for a file and a directory. Each call that throws returns
  its error, and the \<^verbatim>\<open>try/catch\<close> of each function of the extension turns it into
  the function's failure result. A write stores what the written string decodes to;
  \<^verbatim>\<open>mkdirSync\<close> is called with \<^verbatim>\<open>recursive: true\<close>, so an existing directory is no
  error.
\<close>

datatype fsnode = Absent | File jsstring | Directory | Blocked

datatype io_error = ENOENT | EISDIR | ENOTDIR | EEXIST

definition existsSync :: "fsnode \<Rightarrow> bool" where
  "existsSync n \<longleftrightarrow> n \<noteq> Absent \<and> n \<noteq> Blocked"

definition readFileSync :: "fsnode \<Rightarrow> io_error + jsstring" where
  "readFileSync n =
     (case n of Absent \<Rightarrow> Inl ENOENT | File c \<Rightarrow> Inr c | Directory \<Rightarrow> Inl EISDIR
      | Blocked \<Rightarrow> Inl ENOTDIR)"

definition writeFileSync :: "fsnode \<Rightarrow> jsstring \<Rightarrow> io_error + fsnode" where
  "writeFileSync n c =
     (case n of Absent \<Rightarrow> Inr (File (toWellFormed c)) | File _ \<Rightarrow> Inr (File (toWellFormed c))
      | Directory \<Rightarrow> Inl EISDIR | Blocked \<Rightarrow> Inl ENOTDIR)"

definition mkdirSync :: "fsnode \<Rightarrow> io_error + fsnode" where
  "mkdirSync n =
     (case n of Absent \<Rightarrow> Inr Directory | File _ \<Rightarrow> Inl EEXIST | Directory \<Rightarrow> Inr Directory
      | Blocked \<Rightarrow> Inl ENOTDIR)"

text \<open>
  The part of the world the extension reads and writes:
  \<^item> \<open>workspaceFolders\<close>: \<^verbatim>\<open>vscode.workspace.workspaceFolders\<close>, undefined or the
    array of the folders' \<^verbatim>\<open>uri.fsPath\<close>;
  \<^item> \<open>gitInfoDir\<close>: what is at \<^verbatim>\<open>.git/info\<close> under the first folder;
  \<^item> \<open>excludeFile\<close>: what is at \<^verbatim>\<open>.git/info/exclude\<close> under the first folder;
  \<^item> \<open>fileExists (root, p)\<close>: \<^verbatim>\<open>fs.existsSync(path.join(root, p))\<close>.
\<close>

record world =
  workspaceFolders :: "jsstring list option"
  gitInfoDir :: fsnode
  excludeFile :: fsnode
  fileExists :: "jsstring \<times> jsstring \<Rightarrow> bool"

text \<open>
  The notifications of \<^verbatim>\<open>vscode.window\<close>, one constructor per message of the source
  (the texts are Japanese; the interpolated path is the argument):
  \<^item> \<open>NoWorkspace\<close>: error, no workspace is open (lines 207 and 258);
  \<^item> \<open>ExcludeFileMissing\<close>: warning, the exclude file does not exist (line 216);
  \<^item> \<open>NotInExcludeList p\<close>: warning, \<open>p\<close> was not found in the list (line 229);
  \<^item> \<open>RemovedFromExclude p\<close>: information, \<open>p\<close> was removed (line 237);
  \<^item> \<open>RemoveFailed\<close>: error, from the \<^verbatim>\<open>catch\<close> of the removal (line 241);
  \<^item> \<open>AlreadyExcluded p\<close>: information, \<open>p\<close> is already excluded (line 285);
  \<^item> \<open>Excluded p\<close>: information, \<open>p\<close> was excluded (line 293);
  \<^item> \<open>ExcludeFailed\<close>: error, from the \<^verbatim>\<open>catch\<close> of the addition (line 297).
\<close>

datatype notification =
    NoWorkspace
  | ExcludeFileMissing
  | NotInExcludeList jsstring
  | RemovedFromExclude jsstring
  | RemoveFailed
  | AlreadyExcluded jsstring
  | Excluded jsstring
  | ExcludeFailed

text \<open>What a command helper returns: its boolean, the message it showed, the world after.\<close>

record outcome =
  returned :: bool
  shown :: notification
  after :: world

section \<open>The exclusion list: \<^verbatim>\<open>getExcludedFiles\<close>, \<^verbatim>\<open>removeFileFromExclude\<close>, \<^verbatim>\<open>excludeFileFromGit\<close>\<close>

text \<open>
  Lines 184 to 186: the trimmed lines that are neither empty nor comments. An empty
  string is falsy, so \<^verbatim>\<open>line && ...\<close> drops it.
\<close>

definition isEntryLine :: "jsstring \<Rightarrow> bool" where
  "isEntryLine line \<longleftrightarrow> line \<noteq> [] \<and> \<not> startsWith line (utf16 ''#'')"

definition excludeEntries :: "jsstring \<Rightarrow> jsstring list" where
  "excludeEntries excludeContent = filter isEntryLine (map trim (split_lf excludeContent))"

definition getExcludedFiles :: "world \<Rightarrow> jsstring list" where
  "getExcludedFiles w =
     (case workspaceFolders w of
        None \<Rightarrow> []
      | Some [] \<Rightarrow> []
      | Some (workspaceRoot # _) \<Rightarrow>
          if \<not> existsSync (excludeFile w) then []
          else (case readFileSync (excludeFile w) of
                  Inl error \<Rightarrow> []
                | Inr excludeContent \<Rightarrow> excludeEntries excludeContent))"

definition removeFileFromExclude :: "world \<Rightarrow> jsstring \<Rightarrow> outcome" where
  "removeFileFromExclude w excludedPath =
     (case workspaceFolders w of
        None \<Rightarrow> \<lparr>returned = False, shown = NoWorkspace, after = w\<rparr>
      | Some [] \<Rightarrow> \<lparr>returned = False, shown = NoWorkspace, after = w\<rparr>
      | Some (workspaceRoot # _) \<Rightarrow>
          if \<not> existsSync (excludeFile w)
          then \<lparr>returned = False, shown = ExcludeFileMissing, after = w\<rparr>
          else (case readFileSync (excludeFile w) of
                  Inl error \<Rightarrow> \<lparr>returned = False, shown = RemoveFailed, after = w\<rparr>
                | Inr excludeContent \<Rightarrow>
                    let lines = split_lf excludeContent;
                        filteredLines = filter (\<lambda>line. trim line \<noteq> excludedPath) lines
                    in if length filteredLines = length lines
                       then \<lparr>returned = False, shown = NotInExcludeList excludedPath, after = w\<rparr>
                       else (case writeFileSync (excludeFile w) (join_lf filteredLines) of
                               Inl error \<Rightarrow> \<lparr>returned = False, shown = RemoveFailed, after = w\<rparr>
                             | Inr node \<Rightarrow>
                                 \<lparr>returned = True, shown = RemovedFromExclude excludedPath,
                                  after = w\<lparr>excludeFile := node\<rparr>\<rparr>)))"

text \<open>
  \<^verbatim>\<open>path.relative\<close> belongs to the host and is a parameter. The entry written to
  the list is \<^verbatim>\<open>pathToAdd\<close>, the relative path with slashes.
\<close>

definition pathToAdd :: "(jsstring \<Rightarrow> jsstring \<Rightarrow> jsstring) \<Rightarrow> jsstring \<Rightarrow> jsstring \<Rightarrow> jsstring" where
  "pathToAdd path_relative workspaceRoot filePath =
     replaceBackslashes (path_relative workspaceRoot filePath)"

text \<open>Line 290: the content written when the entry is new.\<close>

definition newContent :: "jsstring \<Rightarrow> jsstring \<Rightarrow> jsstring" where
  "newContent excludeContent p =
     trim excludeContent @ (if trim excludeContent \<noteq> [] then [LF] else []) @ p @ [LF]"

definition excludeFileFromGit ::
  "(jsstring \<Rightarrow> jsstring \<Rightarrow> jsstring) \<Rightarrow> world \<Rightarrow> jsstring \<Rightarrow> outcome" where
  "excludeFileFromGit path_relative w filePath =
     (case workspaceFolders w of
        None \<Rightarrow> \<lparr>returned = False, shown = NoWorkspace, after = w\<rparr>
      | Some [] \<Rightarrow> \<lparr>returned = False, shown = NoWorkspace, after = w\<rparr>
      | Some (workspaceRoot # _) \<Rightarrow>
          (case (if \<not> existsSync (gitInfoDir w) then mkdirSync (gitInfoDir w)
                 else Inr (gitInfoDir w)) of
             Inl error \<Rightarrow> \<lparr>returned = False, shown = ExcludeFailed, after = w\<rparr>
           | Inr dir \<Rightarrow>
               let w1 = w\<lparr>gitInfoDir := dir\<rparr>;
                   p = pathToAdd path_relative workspaceRoot filePath
               in (case (if existsSync (excludeFile w1) then readFileSync (excludeFile w1)
                         else Inr []) of
                     Inl error \<Rightarrow> \<lparr>returned = False, shown = ExcludeFailed, after = w1\<rparr>
                   | Inr excludeContent \<Rightarrow>
                       let lines = split_lf excludeContent
                       in if p \<in> set lines
                          then \<lparr>returned = True, shown = AlreadyExcluded p, after = w1\<rparr>
                          else (case writeFileSync (excludeFile w1) (newContent excludeContent p) of
                                  Inl error \<Rightarrow>
                                    \<lparr>returned = False, shown = ExcludeFailed, after = w1\<rparr>
                                | Inr node \<Rightarrow>
                                    \<lparr>returned = True, shown = Excluded p,
                                     after = w1\<lparr>excludeFile := node\<rparr>\<rparr>))))"

section \<open>The tree view: \<^verbatim>\<open>GitAwayTreeItem\<close> and \<^verbatim>\<open>getChildren\<close>\<close>

datatype collapsible = CollapsibleNone | Collapsed | Expanded

text \<open>
  The command of a file item is \<^verbatim>\<open>vscode.open\<close> on \<^verbatim>\<open>Uri.file(path.join(root, p))\<close>;
  the pair \<open>(root, p)\<close> stands for the joined path.
\<close>

record vscode_command =
  command_id :: string
  title :: jsstring
  arguments :: "(jsstring \<times> jsstring) list"

record GitAwayTreeItem =
  label :: jsstring
  collapsibleState :: collapsible
  iconPath :: string
  command :: "vscode_command option"
  tooltip :: jsstring
  contextValue :: string

text \<open>The constructor: the tooltip is the label, the context value is fixed.\<close>

definition newGitAwayTreeItem ::
  "jsstring \<Rightarrow> collapsible \<Rightarrow> string \<Rightarrow> vscode_command option \<Rightarrow> GitAwayTreeItem" where
  "newGitAwayTreeItem lbl cs icon cmd =
     \<lparr>label = lbl, collapsibleState = cs, iconPath = icon, command = cmd,
      tooltip = lbl, contextValue = ''gitAwayItem''\<rparr>"

text \<open>The Japanese texts of the view, as code units.\<close>

definition noExcludedFilesLabel :: jsstring where
  "noExcludedFilesLabel =
     [0x9664, 0x5916, 0x3055, 0x308C, 0x305F, 0x30D5, 0x30A1, 0x30A4, 0x30EB,
      0x306F, 0x3042, 0x308A, 0x307E, 0x305B, 0x3093]"

definition excludedFileTooltip :: jsstring where
  "excludedFileTooltip =
     [0x9664, 0x5916, 0x3055, 0x308C, 0x305F, 0x30D5, 0x30A1, 0x30A4, 0x30EB, 0x3A, 0x20]"

definition missingFileTooltip :: jsstring where
  "missingFileTooltip =
     [0x9664, 0x5916, 0x3055, 0x308C, 0x305F, 0x30D5, 0x30A1, 0x30A4, 0x30EB, 0xFF08,
      0x5B58, 0x5728, 0x3057, 0x307E, 0x305B, 0x3093, 0xFF09, 0x3A, 0x20]"

definition openFileTitle :: jsstring where
  "openFileTitle = [0x30D5, 0x30A1, 0x30A4, 0x30EB, 0x3092, 0x958B, 0x304F]"

text \<open>
  \<^verbatim>\<open>Array.prototype.sort(compare)\<close> is stable; with a consistent comparator its
  result is the stable sorted arrangement, computed here by insertion from the right:
  an element goes before the first later element it does not compare greater than.
\<close>

fun sort_insert :: "('a \<Rightarrow> 'a \<Rightarrow> int) \<Rightarrow> 'a \<Rightarrow> 'a list \<Rightarrow> 'a list" where
  "sort_insert compare x [] = [x]"
| "sort_insert compare x (y # ys) =
     (if compare x y \<le> 0 then x # y # ys else y # sort_insert compare x ys)"

fun array_sort :: "('a \<Rightarrow> 'a \<Rightarrow> int) \<Rightarrow> 'a list \<Rightarrow> 'a list" where
  "array_sort compare [] = []"
| "array_sort compare (x # xs) = sort_insert compare x (array_sort compare xs)"

text \<open>The body of the \<^verbatim>\<open>for\<close> loop of \<^verbatim>\<open>getChildren\<close>: the item of one entry.\<close>

definition fileItem :: "world \<Rightarrow> jsstring \<Rightarrow> jsstring \<Rightarrow> GitAwayTreeItem" where
  "fileItem w workspaceRoot excludedPath =
     (let exists = fileExists w (workspaceRoot, excludedPath);
          iconName = (if exists then ''file'' else ''warning'');
          tip = (if exists then excludedFileTooltip @ excludedPath
                 else missingFileTooltip @ excludedPath);
          cmd = (if exists
                 then Some \<lparr>command_id = ''vscode.open'', title = openFileTitle,
                            arguments = [(workspaceRoot, excludedPath)]\<rparr>
                 else None)
      in (newGitAwayTreeItem excludedPath CollapsibleNone iconName cmd)
           \<lparr>tooltip := tip, contextValue := ''excludedFile''\<rparr>)"

text \<open>
  \<^verbatim>\<open>localeCompare\<close> belongs to the host and is a parameter. The element is
  \<open>None\<close> for the root query. \<^verbatim>\<open>getChildren\<close> has no \<^verbatim>\<open>try/catch\<close>:
  \<^verbatim>\<open>workspaceFolders[0].uri\<close> on an empty array would reject with a TypeError.
\<close>

datatype js_error = TypeError

definition getChildren ::
  "(jsstring \<Rightarrow> jsstring \<Rightarrow> int) \<Rightarrow> world \<Rightarrow> GitAwayTreeItem option
     \<Rightarrow> js_error + GitAwayTreeItem list" where
  "getChildren localeCompare w element =
     (case element of
        Some _ \<Rightarrow> Inr []
      | None \<Rightarrow>
          let excludedFiles = getExcludedFiles w
          in if length excludedFiles = 0
             then Inr [newGitAwayTreeItem noExcludedFilesLabel CollapsibleNone ''info'' None]
             else (case workspaceFolders w of
                     None \<Rightarrow> Inr []
                   | Some [] \<Rightarrow> Inl TypeError
                   | Some (workspaceRoot # _) \<Rightarrow>
                       let files = map (fileItem w workspaceRoot) excludedFiles
                       in Inr (array_sort (\<lambda>a b. localeCompare (label a) (label b)) files)))"

section \<open>Comparators and sample worlds\<close>

text \<open>
  A consistent comparator in the sense of ECMAScript: \<open>compare a b \<le> 0\<close> is a total
  preorder. \<^verbatim>\<open>localeCompare\<close> is one; sorting is only specified for such comparators.
\<close>

definition consistentComparator :: "(jsstring \<Rightarrow> jsstring \<Rightarrow> int) \<Rightarrow> bool" where
  "consistentComparator compare \<longleftrightarrow>
     (\<forall>a b. compare a b \<le> 0 \<or> compare b a \<le> 0) \<and>
     (\<forall>a b c. compare a b \<le> 0 \<longrightarrow> compare b c \<le> 0 \<longrightarrow> compare a c \<le> 0)"

text \<open>A concrete comparator for the examples: the order of the code units.\<close>

definition codeUnitCompare :: "jsstring \<Rightarrow> jsstring \<Rightarrow> int" where
  "codeUnitCompare a b = (if a < b then - 1 else if a = b then 0 else 1)"

text \<open>
  A concrete \<^verbatim>\<open>path.relative\<close> for the examples, right for a file below the
  folder: what follows the folder and its separator.
\<close>

definition relativeBelow :: "jsstring \<Rightarrow> jsstring \<Rightarrow> jsstring" where
  "relativeBelow workspaceRoot filePath = drop (length workspaceRoot + 1) filePath"

definition onlyAppleOnDisk :: "jsstring \<times> jsstring \<Rightarrow> bool" where
  "onlyAppleOnDisk fullPath \<longleftrightarrow> snd fullPath = utf16 ''apple.txt''"

text \<open>A workspace \<^verbatim>\<open>/ws\<close> with the given thing at \<^verbatim>\<open>/ws/.git/info/exclude\<close>.\<close>

definition wsWorld :: "fsnode \<Rightarrow> world" where
  "wsWorld node =
     \<lparr>workspaceFolders = Some [utf16 ''/ws''], gitInfoDir = Directory,
      excludeFile = node, fileExists = onlyAppleOnDisk\<rparr>"

text \<open>No folder is open.\<close>

definition noWorkspaceWorld :: world where
  "noWorkspaceWorld =
     \<lparr>workspaceFolders = None, gitInfoDir = Absent,
      excludeFile = Absent, fileExists = onlyAppleOnDisk\<rparr>"

text \<open>The contents of \<^verbatim>\<open>.git/info/exclude\<close> used in the examples.\<close>

definition sampleExclude :: jsstring where
  "sampleExclude =
     utf16 ''# c'' @ [LF] @ utf16 '' b.txt '' @ [LF, LF] @ utf16 ''a.txt'' @ [0x0D, LF]
       @ utf16 ''b.txt''"


definition commentAndEntry :: jsstring where
  "commentAndEntry = [LF] @ utf16 ''# local'' @ [LF, LF] @ utf16 ''a.txt'' @ [LF, LF, LF]"

definition zebraAppleBanana :: jsstring where
  "zebraAppleBanana =
     utf16 ''zebra.txt'' @ [LF] @ utf16 ''apple.txt'' @ [LF] @ utf16 ''Banana.txt'' @ [LF]"

section \<open>Splitting, joining and trimming\<close>

text \<open>
  Splitting never returns the empty array and no piece contains LF; joining undoes
  splitting; on lines without LF splitting undoes joining, except that the empty array
  joins to the empty string. Trimming removes a prefix and a suffix of white space and
  nothing else.
\<close>

lemma split_lf_not_Nil: "split_lf s \<noteq> []"
  by (induction s) (auto split: list.splits)

lemma split_lf_line_no_LF: "l \<in> set (split_lf s) \<Longrightarrow> LF \<notin> set l"
proof (induction s arbitrary: l)
  case Nil
  then show ?case by simp
next
  case (Cons c cs)
  obtain a as where sp: "split_lf cs = a # as"
    using split_lf_not_Nil [of cs] by (cases "split_lf cs") auto
  show ?case
  proof (cases "c = LF")
    case True
    with Cons show ?thesis by auto
  next
    case False
    with Cons.prems sp have "l = c # a \<or> l \<in> set as" by simp
    then show ?thesis
      using Cons.IH sp False by auto
  qed
qed

lemma split_lf_no_LF: "LF \<notin> set a \<Longrightarrow> split_lf a = [a]"
  by (induction a) auto

lemma split_lf_append_LF: "split_lf (a @ LF # b) = split_lf a @ split_lf b"
proof (induction a)
  case Nil
  then show ?case by simp
next
  case (Cons c cs)
  obtain l ls where sp: "split_lf cs = l # ls"
    using split_lf_not_Nil [of cs] by (cases "split_lf cs") auto
  show ?case
    using Cons sp by simp
qed

lemma split_lf_snoc:
  "x \<noteq> LF \<Longrightarrow> split_lf (s @ [x]) = butlast (split_lf s) @ [last (split_lf s) @ [x]]"
proof (induction s)
  case Nil
  then show ?case by simp
next
  case (Cons c cs)
  obtain a as where sp: "split_lf cs = a # as"
    using split_lf_not_Nil [of cs] by (cases "split_lf cs") auto
  show ?case
    using Cons sp by (cases as) auto
qed


lemma join_lf_split_lf: "join_lf (split_lf s) = s"
proof (induction s)
  case Nil
  then show ?case by simp
next
  case (Cons c cs)
  obtain a as where sp: "split_lf cs = a # as"
    using split_lf_not_Nil [of cs] by (cases "split_lf cs") auto
  show ?case
    using Cons sp by (cases as) auto
qed

lemma split_lf_join_lf:
  "ls \<noteq> [] \<Longrightarrow> \<forall>l\<in>set ls. LF \<notin> set l \<Longrightarrow> split_lf (join_lf ls) = ls"
proof (induction ls rule: join_lf.induct)
  case 1
  then show ?case by simp
next
  case (2 l)
  then show ?case by (simp add: split_lf_no_LF)
next
  case (3 l v va)
  then show ?case by (simp add: split_lf_append_LF split_lf_no_LF)
qed

lemma trim_Nil: "trim [] = []"
  by (simp add: trim_def trimStart_def trimEnd_def)

lemma trim_Cons_ws: "isWhiteSpace x \<Longrightarrow> trim (x # s) = trim s"
  by (simp add: trim_def trimStart_def)

lemma trim_snoc_ws: "isWhiteSpace x \<Longrightarrow> trim (s @ [x]) = trim s"
proof (cases "\<forall>c\<in>set s. isWhiteSpace c")
  case True
  assume "isWhiteSpace x"
  with True have "dropWhile isWhiteSpace (s @ [x]) = []" "dropWhile isWhiteSpace s = []"
    by simp_all
  then show ?thesis unfolding trim_def trimStart_def by (simp only:)
next
  case False
  assume x: "isWhiteSpace x"
  from False obtain y where "y \<in> set s" "\<not> isWhiteSpace y" by blast
  then have "dropWhile isWhiteSpace (s @ [x]) = dropWhile isWhiteSpace s @ [x]"
    by (rule dropWhile_append1)
  with x show ?thesis
    by (simp add: trim_def trimStart_def trimEnd_def)
qed

lemma trimEnd_decomp: "\<exists>post. s = trimEnd s @ post \<and> (\<forall>c\<in>set post. isWhiteSpace c)"
proof -
  have "rev s = takeWhile isWhiteSpace (rev s) @ dropWhile isWhiteSpace (rev s)" by simp
  then have "s = rev (dropWhile isWhiteSpace (rev s)) @ rev (takeWhile isWhiteSpace (rev s))"
    by (metis rev_append rev_rev_ident)
  moreover have "\<forall>c\<in>set (rev (takeWhile isWhiteSpace (rev s))). isWhiteSpace c"
    by (auto dest: set_takeWhileD)
  ultimately show ?thesis unfolding trimEnd_def by blast
qed

lemma trim_decomp:
  "\<exists>pre post. s = pre @ trim s @ post
     \<and> (\<forall>c\<in>set pre. isWhiteSpace c) \<and> (\<forall>c\<in>set post. isWhiteSpace c)"
proof -
  obtain post where p: "trimStart s = trim s @ post" "\<forall>c\<in>set post. isWhiteSpace c"
    using trimEnd_decomp [of "trimStart s"] unfolding trim_def by auto
  have "s = takeWhile isWhiteSpace s @ trimStart s" by (simp add: trimStart_def)
  with p have "s = takeWhile isWhiteSpace s @ trim s @ post" by simp
  moreover have "\<forall>c\<in>set (takeWhile isWhiteSpace s). isWhiteSpace c"
    by (auto dest: set_takeWhileD)
  ultimately show ?thesis using p(2) by blast
qed

lemma trimStart_hd: "trimStart s \<noteq> [] \<Longrightarrow> \<not> isWhiteSpace (hd (trimStart s))"
  unfolding trimStart_def by (simp add: hd_dropWhile)

lemma trimEnd_last: "trimEnd s \<noteq> [] \<Longrightarrow> \<not> isWhiteSpace (last (trimEnd s))"
  unfolding trimEnd_def by (simp add: last_rev hd_dropWhile)

lemma trimEnd_hd: "trimEnd s \<noteq> [] \<Longrightarrow> hd (trimEnd s) = hd s"
  using trimEnd_decomp [of s] by (metis hd_append2)

lemma trim_ends:
  "trim s \<noteq> [] \<Longrightarrow> \<not> isWhiteSpace (hd (trim s)) \<and> \<not> isWhiteSpace (last (trim s))"
proof -
  assume ne: "trim s \<noteq> []"
  then have "trimStart s \<noteq> []" by (auto simp: trim_def trimEnd_def)
  then have "\<not> isWhiteSpace (hd (trimStart s))" by (rule trimStart_hd)
  then have "\<not> isWhiteSpace (hd (trim s))" using ne trimEnd_hd unfolding trim_def by metis
  moreover have "\<not> isWhiteSpace (last (trim s))" using ne trimEnd_last unfolding trim_def by metis
  ultimately show ?thesis by simp
qed

lemma trim_id: "s \<noteq> [] \<Longrightarrow> \<not> isWhiteSpace (hd s) \<Longrightarrow> \<not> isWhiteSpace (last s) \<Longrightarrow> trim s = s"
proof -
  assume ne: "s \<noteq> []" and h: "\<not> isWhiteSpace (hd s)" and l: "\<not> isWhiteSpace (last s)"
  from ne h have "trimStart s = s"
    by (cases s) (simp_all add: trimStart_def)
  moreover from ne l have "dropWhile isWhiteSpace (rev s) = rev s"
    by (cases "rev s") (auto simp: hd_rev dest: arg_cong [where f = hd])
  ultimately show ?thesis by (simp add: trim_def trimEnd_def)
qed

lemma trim_idem: "trim (trim s) = trim s"
  by (cases "trim s = []") (auto simp: trim_Nil trim_ends trim_id)

lemma isWhiteSpace_LF: "isWhiteSpace LF"
  by (simp add: isWhiteSpace_def)

section \<open>The entries of a content\<close>

text \<open>
  White space at either end of the content does not change its entries, the entries of
  the content written by an addition are the old ones followed by those of the new
  path, and the entries left by a removal are the old ones without the removed path.
\<close>

lemma isEntryLine_Nil: "\<not> isEntryLine []"
  by (simp add: isEntryLine_def)

lemma excludeEntries_Nil: "excludeEntries [] = []"
  by (simp add: excludeEntries_def trim_Nil isEntryLine_Nil)

lemma excludeEntries_Cons_ws: "isWhiteSpace x \<Longrightarrow> excludeEntries (x # s) = excludeEntries s"
proof -
  assume x: "isWhiteSpace x"
  obtain a as where sp: "split_lf s = a # as"
    using split_lf_not_Nil [of s] by (cases "split_lf s") auto
  show ?thesis
    using x sp by (simp add: excludeEntries_def trim_Nil isEntryLine_Nil trim_Cons_ws)
qed

lemma excludeEntries_snoc_ws: "isWhiteSpace x \<Longrightarrow> excludeEntries (s @ [x]) = excludeEntries s"
proof (cases "x = LF")
  case True
  have "split_lf (s @ [LF]) = split_lf s @ [[]]"
    using split_lf_append_LF [of s "[]"] by simp
  with True show ?thesis
    by (simp add: excludeEntries_def trim_Nil isEntryLine_Nil)
next
  case False
  assume x: "isWhiteSpace x"
  have "map trim (split_lf (s @ [x])) = map trim (butlast (split_lf s) @ [last (split_lf s)])"
    using False x by (simp add: split_lf_snoc trim_snoc_ws)
  also have "\<dots> = map trim (split_lf s)"
    by (simp add: split_lf_not_Nil)
  finally show ?thesis by (simp add: excludeEntries_def)
qed

lemma excludeEntries_trimStart: "excludeEntries (trimStart s) = excludeEntries s"
  unfolding trimStart_def by (induction s) (simp_all add: excludeEntries_Cons_ws)

lemma excludeEntries_trimEnd: "excludeEntries (trimEnd s) = excludeEntries s"
proof (induction s rule: rev_induct)
  case Nil
  then show ?case by (simp add: trimEnd_def)
next
  case (snoc x xs)
  then show ?case
    by (cases "isWhiteSpace x") (simp_all add: trimEnd_def excludeEntries_snoc_ws)
qed

lemma excludeEntries_trim: "excludeEntries (trim s) = excludeEntries s"
  by (simp add: trim_def excludeEntries_trimEnd excludeEntries_trimStart)

lemma excludeEntries_append_LF:
  "excludeEntries (a @ LF # b) = excludeEntries a @ excludeEntries b"
  by (simp add: excludeEntries_def split_lf_append_LF)

lemma excludeEntries_newContent:
  "excludeEntries (newContent c p) = excludeEntries c @ excludeEntries p"
proof (cases "trim c = []")
  case True
  have "excludeEntries c = excludeEntries (trim c)" by (simp add: excludeEntries_trim)
  with True have "excludeEntries c = []" by (simp add: excludeEntries_Nil)
  with True show ?thesis
    by (simp add: newContent_def excludeEntries_snoc_ws isWhiteSpace_LF)
next
  case False
  have "newContent c p = trim c @ LF # (p @ [LF])"
    using False by (simp add: newContent_def)
  then show ?thesis
    by (simp add: excludeEntries_append_LF excludeEntries_trim excludeEntries_Nil)
qed

lemma excludeEntries_line:
  "LF \<notin> set p \<Longrightarrow> excludeEntries p = (if isEntryLine (trim p) then [trim p] else [])"
  by (simp add: excludeEntries_def split_lf_no_LF)

lemma excludeEntries_join_lf:
  assumes "\<forall>l\<in>set ls. LF \<notin> set l"
  shows "excludeEntries (join_lf ls) = filter isEntryLine (map trim ls)"
proof (cases "ls = []")
  case True
  then show ?thesis by (simp add: excludeEntries_Nil)
next
  case False
  with assms show ?thesis by (simp add: excludeEntries_def split_lf_join_lf)
qed

lemma filter_entries_removed:
  "filter isEntryLine (map trim (filter (\<lambda>l. trim l \<noteq> e) ls))
     = filter (\<lambda>x. x \<noteq> e) (filter isEntryLine (map trim ls))"
  by (induction ls) auto

lemma excludeEntries_removed:
  "excludeEntries (join_lf (filter (\<lambda>l. trim l \<noteq> e) (split_lf c)))
     = filter (\<lambda>x. x \<noteq> e) (excludeEntries c)"
proof -
  have "\<forall>l\<in>set (filter (\<lambda>l. trim l \<noteq> e) (split_lf c)). LF \<notin> set l"
    by (auto dest: split_lf_line_no_LF)
  then show ?thesis
    by (simp add: excludeEntries_join_lf filter_entries_removed) (simp add: excludeEntries_def)
qed

lemma split_lf_newContent:
  "LF \<notin> set p \<Longrightarrow>
   split_lf (newContent c p) = (if trim c = [] then [] else split_lf (trim c)) @ [p, []]"
proof -
  assume p: "LF \<notin> set p"
  have a: "split_lf (p @ [LF]) = [p, []]"
    using split_lf_append_LF [of p "[]"] p by (simp add: split_lf_no_LF)
  show ?thesis
  proof (cases "trim c = []")
    case True
    then show ?thesis using a by (simp add: newContent_def)
  next
    case False
    have "newContent c p = trim c @ LF # (p @ [LF])"
      using False by (simp add: newContent_def)
    then show ?thesis using a False by (simp add: split_lf_append_LF)
  qed
qed

lemma filter_length_eq_iff: "length (filter P xs) = length xs \<longleftrightarrow> (\<forall>x\<in>set xs. P x)"
  by (metis filter_id_conv length_filter_less nat_less_le)

lemma isEntryLine_iff: "isEntryLine l \<longleftrightarrow> l \<noteq> [] \<and> hd l \<noteq> 0x23"
  by (cases l) (simp_all add: isEntryLine_def startsWith_def utf16_def)

lemma count_list_filter: "count_list (filter P xs) e = (if P e then count_list xs e else 0)"
  by (induction xs) auto

lemma excludeEntries_entry:
  "LF \<notin> set p \<Longrightarrow> trim p = p \<Longrightarrow> excludeEntries p = (if isEntryLine p then [p] else [])"
  by (simp add: excludeEntries_line)

section \<open>Sorting with a comparator\<close>

lemma mset_sort_insert: "mset (sort_insert compare x xs) = add_mset x (mset xs)"
  by (induction xs) auto

lemma mset_array_sort: "mset (array_sort compare xs) = mset xs"
  by (induction xs) (auto simp: mset_sort_insert)

lemma mset_map_array_sort: "mset (map f (array_sort compare xs)) = mset (map f xs)"
  by (simp add: mset_array_sort)

lemma set_sort_insert: "set (sort_insert compare x xs) = insert x (set xs)"
  using mset_sort_insert [of compare x xs, THEN arg_cong, of set_mset] by simp

lemma sorted_wrt_sort_insert:
  assumes total: "\<And>a b. compare a b \<le> 0 \<or> compare b a \<le> 0"
    and trans: "\<And>a b c. compare a b \<le> 0 \<Longrightarrow> compare b c \<le> 0 \<Longrightarrow> compare a c \<le> 0"
  shows "sorted_wrt (\<lambda>a b. compare a b \<le> 0) xs \<Longrightarrow>
         sorted_wrt (\<lambda>a b. compare a b \<le> (0::int)) (sort_insert compare x xs)"
proof (induction xs)
  case Nil
  then show ?case by simp
next
  case (Cons y ys)
  show ?case
  proof (cases "compare x y \<le> 0")
    case True
    then have "\<forall>z\<in>set ys. compare x z \<le> 0"
      using Cons.prems trans by auto
    with True Cons.prems show ?thesis by simp
  next
    case False
    then have "compare y x \<le> 0" using total [of x y] by simp
    with False Cons show ?thesis by (auto simp: set_sort_insert)
  qed
qed

lemma sorted_wrt_array_sort:
  assumes "\<And>a b. compare a b \<le> 0 \<or> compare b a \<le> 0"
    and "\<And>a b c. compare a b \<le> 0 \<Longrightarrow> compare b c \<le> 0 \<Longrightarrow> compare a c \<le> 0"
  shows "sorted_wrt (\<lambda>a b. compare a b \<le> (0::int)) (array_sort compare xs)"
  by (induction xs) (simp_all add: sorted_wrt_sort_insert [OF assms])

lemma label_fileItem: "label (fileItem w root p) = p"
  by (simp add: fileItem_def newGitAwayTreeItem_def Let_def)

lemma consistent_codeUnitCompare: "consistentComparator codeUnitCompare"
  unfolding consistentComparator_def codeUnitCompare_def
  by (auto split: if_splits)

lemma getChildren_sample_order:
  "map_sum id (map label)
     (getChildren codeUnitCompare (wsWorld (File zebraAppleBanana)) None)
   = Inr [utf16 ''Banana.txt'', utf16 ''apple.txt'', utf16 ''zebra.txt'']"
  by (simp add: getChildren_def getExcludedFiles_def excludeEntries_def isEntryLine_def
      startsWith_def wsWorld_def existsSync_def readFileSync_def zebraAppleBanana_def utf16_def
      trim_def trimStart_def trimEnd_def isWhiteSpace_def fileItem_def newGitAwayTreeItem_def
      codeUnitCompare_def onlyAppleOnDisk_def Let_def)

section \<open>Well-formed strings\<close>

text \<open>
  What comes back from a file is well formed and a well-formed string comes back as it
  is. LF and white space are no surrogates, so replacing unpaired surrogates works line
  by line, and trimming, joining lines and appending an entry keep a text well formed.
\<close>

lemma not_surrogate_LF: "\<not> isHighSurrogate LF \<and> \<not> isLowSurrogate LF"
  by (simp add: isHighSurrogate_def isLowSurrogate_def)

lemma isWhiteSpace_not_surrogate:
  "isWhiteSpace c \<Longrightarrow> \<not> isHighSurrogate c \<and> \<not> isLowSurrogate c"
  unfolding isWhiteSpace_def isHighSurrogate_def isLowSurrogate_def
  by (auto simp: word_le_nat_alt)

lemma toWellFormed_id: "wellFormed s \<Longrightarrow> toWellFormed s = s"
  by (induction s rule: toWellFormed.induct) (auto split: if_splits)

lemma wellFormed_toWellFormed: "wellFormed (toWellFormed s)"
proof (induction s rule: toWellFormed.induct)
  case 1
  then show ?case by simp
next
  case (2 c)
  then show ?case by (simp add: isHighSurrogate_def isLowSurrogate_def)
next
  case (3 c d cs)
  have f: "\<not> isHighSurrogate 0xFFFD \<and> \<not> isLowSurrogate 0xFFFD"
    by (simp add: isHighSurrogate_def isLowSurrogate_def)
  have step: "\<not> isHighSurrogate x \<Longrightarrow> \<not> isLowSurrogate x \<Longrightarrow> wellFormed (x # t) = wellFormed t"
    for x t by (cases t) simp_all
  show ?case
  proof (cases "isHighSurrogate c \<and> isLowSurrogate d")
    case True
    with 3 show ?thesis by simp
  next
    case False
    with 3 have ih: "wellFormed (toWellFormed (d # cs))" by simp
    show ?thesis
    proof (cases "isHighSurrogate c \<or> isLowSurrogate c")
      case True
      with False ih f show ?thesis by (auto simp: step)
    next
      case False
      with \<open>\<not> (isHighSurrogate c \<and> isLowSurrogate d)\<close> ih show ?thesis by (auto simp: step)
    qed
  qed
qed

lemma wellFormed_Cons_plain:
  "\<not> isHighSurrogate x \<Longrightarrow> \<not> isLowSurrogate x \<Longrightarrow> wellFormed (x # t) = wellFormed t"
  by (cases t) simp_all

lemma toWellFormed_Cons_plain:
  "\<not> isHighSurrogate x \<Longrightarrow> \<not> isLowSurrogate x \<Longrightarrow> toWellFormed (x # t) = x # toWellFormed t"
  by (cases t) simp_all

lemma wellFormed_append_plain:
  "\<not> isHighSurrogate x \<Longrightarrow> \<not> isLowSurrogate x \<Longrightarrow>
   wellFormed (a @ x # b) \<longleftrightarrow> wellFormed a \<and> wellFormed b"
  by (induction a rule: wellFormed.induct) (auto simp: wellFormed_Cons_plain)

lemma toWellFormed_append_plain:
  "\<not> isHighSurrogate x \<Longrightarrow> \<not> isLowSurrogate x \<Longrightarrow>
   toWellFormed (a @ x # b) = toWellFormed a @ x # toWellFormed b"
  by (induction a rule: toWellFormed.induct) (auto simp: toWellFormed_Cons_plain)

lemma wellFormed_append_LF: "wellFormed (a @ LF # b) \<longleftrightarrow> wellFormed a \<and> wellFormed b"
  by (simp add: wellFormed_append_plain not_surrogate_LF)

lemma toWellFormed_append_LF: "toWellFormed (a @ LF # b) = toWellFormed a @ LF # toWellFormed b"
  by (simp add: toWellFormed_append_plain not_surrogate_LF)

lemma wellFormed_snoc_LF: "wellFormed (a @ [LF]) \<longleftrightarrow> wellFormed a"
  using wellFormed_append_LF [of a "[]"] by simp

lemma toWellFormed_snoc_LF: "toWellFormed (a @ [LF]) = toWellFormed a @ [LF]"
  using toWellFormed_append_LF [of a "[]"] by simp

lemma wellFormed_drop_prefix:
  "\<forall>c\<in>set pre. isWhiteSpace c \<Longrightarrow> wellFormed (pre @ t) \<Longrightarrow> wellFormed t"
  by (induction pre) (auto simp: wellFormed_Cons_plain isWhiteSpace_not_surrogate)

lemma wellFormed_drop_suffix:
  "\<forall>c\<in>set post. isWhiteSpace c \<Longrightarrow> wellFormed (t @ post) \<Longrightarrow> wellFormed t"
  by (cases post) (auto simp: wellFormed_append_plain isWhiteSpace_not_surrogate)

lemma wellFormed_trim: "wellFormed s \<Longrightarrow> wellFormed (trim s)"
proof -
  assume wf: "wellFormed s"
  obtain pre post where d: "s = pre @ trim s @ post"
    "\<forall>c\<in>set pre. isWhiteSpace c" "\<forall>c\<in>set post. isWhiteSpace c"
    using trim_decomp [of s] by blast
  from wf d(1) have "wellFormed (pre @ (trim s @ post))" by simp
  with d(2) have "wellFormed (trim s @ post)" by (rule wellFormed_drop_prefix)
  with d(3) show ?thesis by (rule wellFormed_drop_suffix)
qed

lemma wellFormed_newContent:
  "wellFormed c \<Longrightarrow> wellFormed p \<Longrightarrow> wellFormed (newContent c p)"
proof -
  assume c: "wellFormed c" and p: "wellFormed p"
  have pl: "wellFormed (p @ [LF])" using p by (simp add: wellFormed_snoc_LF)
  show ?thesis
  proof (cases "trim c = []")
    case True
    with pl show ?thesis by (simp add: newContent_def)
  next
    case False
    then have "newContent c p = trim c @ LF # (p @ [LF])" by (simp add: newContent_def)
    with pl c show ?thesis by (simp add: wellFormed_append_LF wellFormed_trim del: append_assoc)
  qed
qed

lemma wellFormed_join_lf: "wellFormed (join_lf ls) \<longleftrightarrow> (\<forall>l\<in>set ls. wellFormed l)"
  by (induction ls rule: join_lf.induct) (simp_all add: wellFormed_append_LF)

lemma wellFormed_kept_lines:
  "wellFormed c \<Longrightarrow> wellFormed (join_lf (filter P (split_lf c)))"
proof -
  assume "wellFormed c"
  then have "wellFormed (join_lf (split_lf c))" by (simp add: join_lf_split_lf)
  then show ?thesis by (simp add: wellFormed_join_lf)
qed




section \<open>The three operations on a world\<close>

text \<open>
  Each function of the source, once a workspace folder is open, as a function of what is
  at \<^verbatim>\<open>.git/info\<close> and at \<^verbatim>\<open>.git/info/exclude\<close>.
\<close>

lemma existsSync_simps:
  "existsSync Absent = False" "existsSync (File c) = True"
  "existsSync Directory = True" "existsSync Blocked = False"
  by (simp_all add: existsSync_def)

lemma getExcludedFiles_File:
  "workspaceFolders w = Some (root # rest) \<Longrightarrow> excludeFile w = File c \<Longrightarrow>
   getExcludedFiles w = excludeEntries c"
  by (simp add: getExcludedFiles_def existsSync_def readFileSync_def)

lemma getExcludedFiles_no_file:
  "\<forall>c. excludeFile w \<noteq> File c \<Longrightarrow> getExcludedFiles w = []"
  by (cases "excludeFile w")
     (auto simp: getExcludedFiles_def existsSync_def readFileSync_def split: option.splits list.splits)

lemma getExcludedFiles_no_workspace:
  "workspaceFolders w = None \<or> workspaceFolders w = Some [] \<Longrightarrow> getExcludedFiles w = []"
  by (auto simp: getExcludedFiles_def)

lemma getExcludedFiles_content:
  "workspaceFolders w = Some (root # rest) \<Longrightarrow>
   excludeFile w = File c \<or> excludeFile w = Absent \<and> c = [] \<Longrightarrow>
   getExcludedFiles w = excludeEntries c"
  by (auto simp: getExcludedFiles_File getExcludedFiles_no_file excludeEntries_Nil)

lemma getExcludedFiles_gitInfoDir [simp]:
  "getExcludedFiles (w\<lparr>gitInfoDir := d\<rparr>) = getExcludedFiles w"
  by (simp add: getExcludedFiles_def split: option.splits list.splits)

lemma removeFileFromExclude_File:
  "workspaceFolders w = Some (root # rest) \<Longrightarrow> excludeFile w = File c \<Longrightarrow>
   removeFileFromExclude w e =
     (if \<forall>l\<in>set (split_lf c). trim l \<noteq> e
      then \<lparr>returned = False, shown = NotInExcludeList e, after = w\<rparr>
      else \<lparr>returned = True, shown = RemovedFromExclude e,
            after = w\<lparr>excludeFile :=
              File (toWellFormed (join_lf (filter (\<lambda>l. trim l \<noteq> e) (split_lf c))))\<rparr>\<rparr>)"
  by (simp add: removeFileFromExclude_def existsSync_def readFileSync_def writeFileSync_def
      filter_length_eq_iff Let_def)

lemma removeFileFromExclude_no_file:
  "\<forall>c. excludeFile w \<noteq> File c \<Longrightarrow> after (removeFileFromExclude w e) = w"
  by (cases "excludeFile w")
     (auto simp: removeFileFromExclude_def existsSync_def readFileSync_def
           split: option.splits list.splits)

lemma removeFileFromExclude_no_workspace:
  "workspaceFolders w = None \<or> workspaceFolders w = Some [] \<Longrightarrow>
   after (removeFileFromExclude w e) = w"
  by (auto simp: removeFileFromExclude_def)

lemma excludeFileFromGit_blocked_dir:
  "workspaceFolders w = Some (root # rest) \<Longrightarrow> gitInfoDir w = Blocked \<Longrightarrow>
   excludeFileFromGit rel w f = \<lparr>returned = False, shown = ExcludeFailed, after = w\<rparr>"
  by (simp add: excludeFileFromGit_def existsSync_def mkdirSync_def)

lemma made_dir:
  "d \<noteq> Blocked \<Longrightarrow>
   (if \<not> existsSync d then mkdirSync d else Inr d)
     = Inr (if existsSync d then d else Directory)"
  by (cases d) (simp_all add: existsSync_def mkdirSync_def)

lemma excludeFileFromGit_content:
  "workspaceFolders w = Some (root # rest) \<Longrightarrow> gitInfoDir w \<noteq> Blocked \<Longrightarrow>
   excludeFile w = File c \<or> excludeFile w = Absent \<and> c = [] \<Longrightarrow>
   excludeFileFromGit rel w f =
     (if pathToAdd rel root f \<in> set (split_lf c)
      then \<lparr>returned = True, shown = AlreadyExcluded (pathToAdd rel root f),
            after = w\<lparr>gitInfoDir := (if existsSync (gitInfoDir w) then gitInfoDir w else Directory)\<rparr>\<rparr>
      else \<lparr>returned = True, shown = Excluded (pathToAdd rel root f),
            after = w\<lparr>gitInfoDir := (if existsSync (gitInfoDir w) then gitInfoDir w else Directory),
                      excludeFile := File (toWellFormed (newContent c (pathToAdd rel root f)))\<rparr>\<rparr>)"
  by (auto simp: excludeFileFromGit_def made_dir existsSync_simps readFileSync_def
      writeFileSync_def Let_def)

lemma excludeFileFromGit_unwritable:
  "workspaceFolders w = Some (root # rest) \<Longrightarrow> gitInfoDir w \<noteq> Blocked \<Longrightarrow>
   excludeFile w = Directory \<or> excludeFile w = Blocked \<Longrightarrow>
   after (excludeFileFromGit rel w f)
     = w\<lparr>gitInfoDir := (if existsSync (gitInfoDir w) then gitInfoDir w else Directory)\<rparr> \<and>
   shown (excludeFileFromGit rel w f) \<noteq> Excluded (pathToAdd rel root f)"
  by (auto simp: excludeFileFromGit_def made_dir existsSync_simps readFileSync_def
      writeFileSync_def Let_def)

lemma excludeFileFromGit_returned:
  "returned (excludeFileFromGit rel w f) \<Longrightarrow> workspaceFolders w = Some (root # rest) \<Longrightarrow>
   gitInfoDir w \<noteq> Blocked"
  by (auto simp: excludeFileFromGit_blocked_dir)

lemma getExcludedFiles_after_remove:
  assumes "\<forall>c. excludeFile w = File c \<longrightarrow> wellFormed c"
  shows "getExcludedFiles (after (removeFileFromExclude w e))
           = filter (\<lambda>x. x \<noteq> e) (getExcludedFiles w)"
proof (cases "\<exists>root rest c. workspaceFolders w = Some (root # rest) \<and> excludeFile w = File c")
  case False
  then have "after (removeFileFromExclude w e) = w \<and> getExcludedFiles w = []"
    by (cases "workspaceFolders w"; cases "the (workspaceFolders w)")
       (auto simp: removeFileFromExclude_no_file removeFileFromExclude_no_workspace
          getExcludedFiles_no_file getExcludedFiles_no_workspace)
  then show ?thesis by simp
next
  case True
  then obtain root rest c
    where ws: "workspaceFolders w = Some (root # rest)" and f: "excludeFile w = File c"
    by blast
  from assms f have wf: "wellFormed c" by simp
  let ?kept = "filter (\<lambda>l. trim l \<noteq> e) (split_lf c)"
  have k: "toWellFormed (join_lf ?kept) = join_lf ?kept"
    using wf by (simp add: toWellFormed_id wellFormed_kept_lines)
  show ?thesis
  proof (cases "\<forall>l\<in>set (split_lf c). trim l \<noteq> e")
    case True
    then have "e \<notin> set (excludeEntries c)"
      by (auto simp: excludeEntries_def)
    then have "filter (\<lambda>x. x \<noteq> e) (excludeEntries c) = excludeEntries c"
      by (auto simp: filter_id_conv)
    with True ws f show ?thesis
      by (simp add: removeFileFromExclude_File getExcludedFiles_File)
  next
    case False
    with ws f k show ?thesis
      by (auto simp: removeFileFromExclude_File excludeEntries_removed
          getExcludedFiles_File [where root = root and rest = rest])
  qed
qed

lemma getExcludedFiles_after_add:
  assumes ws: "workspaceFolders w = Some (root # rest)"
    and wf: "\<forall>c. excludeFile w = File c \<longrightarrow> wellFormed c"
    and p: "p = pathToAdd rel root f" and wp: "wellFormed p"
  shows "getExcludedFiles (after (excludeFileFromGit rel w f))
           = getExcludedFiles w
               @ (if shown (excludeFileFromGit rel w f) = Excluded p then excludeEntries p else [])"
    and "\<forall>c. excludeFile (after (excludeFileFromGit rel w f)) = File c \<longrightarrow> wellFormed c"
proof -
  have "getExcludedFiles (after (excludeFileFromGit rel w f))
           = getExcludedFiles w
               @ (if shown (excludeFileFromGit rel w f) = Excluded p then excludeEntries p else [])
        \<and> (\<forall>c. excludeFile (after (excludeFileFromGit rel w f)) = File c \<longrightarrow> wellFormed c)"
  proof (cases "gitInfoDir w = Blocked")
    case True
    with ws wf show ?thesis by (simp add: excludeFileFromGit_blocked_dir)
  next
    case False
    note dir = this
    show ?thesis
    proof (cases "excludeFile w = Directory \<or> excludeFile w = Blocked")
      case True
      from excludeFileFromGit_unwritable [OF ws dir True, of rel f, folded p] True
      show ?thesis by (auto simp: getExcludedFiles_no_file)
    next
      case False
      define c where "c = (case excludeFile w of File c \<Rightarrow> c | _ \<Rightarrow> [])"
      from False have node: "excludeFile w = File c \<or> excludeFile w = Absent \<and> c = []"
        by (cases "excludeFile w") (simp_all add: c_def)
      with wf have wc: "wellFormed c" by auto
      have before: "getExcludedFiles w = excludeEntries c"
        using ws node by (rule getExcludedFiles_content)
      have n: "toWellFormed (newContent c p) = newContent c p"
        using wc wp by (simp add: toWellFormed_id wellFormed_newContent)
      note add = excludeFileFromGit_content [OF ws dir node, of rel f, folded p]
      show ?thesis
      proof (cases "p \<in> set (split_lf c)")
        case True
        with add wf show ?thesis by simp
      next
        case False
        let ?w2 = "w\<lparr>gitInfoDir := (if existsSync (gitInfoDir w) then gitInfoDir w else Directory),
                      excludeFile := File (newContent c p)\<rparr>"
        have ws2: "workspaceFolders ?w2 = Some (root # rest)" using ws by simp
        from False add n have a: "after (excludeFileFromGit rel w f) = ?w2"
          and s: "shown (excludeFileFromGit rel w f) = Excluded p"
          by simp_all
        have "getExcludedFiles ?w2 = excludeEntries c @ excludeEntries p"
          using getExcludedFiles_File [OF ws2, of "newContent c p"]
          by (simp add: excludeEntries_newContent)
        with a s before wc wp show ?thesis
          by (simp add: wellFormed_newContent)
      qed
    qed
  qed
  then show "getExcludedFiles (after (excludeFileFromGit rel w f))
           = getExcludedFiles w
               @ (if shown (excludeFileFromGit rel w f) = Excluded p then excludeEntries p else [])"
    and "\<forall>c. excludeFile (after (excludeFileFromGit rel w f)) = File c \<longrightarrow> wellFormed c"
    by simp_all
qed



text \<open>Two runs of the source that the model follows.\<close>

lemma lone_surrogate_is_added_again:
  "excludeFile (after (excludeFileFromGit relativeBelow (wsWorld Absent) (utf16 ''/ws/'' @ [0xD800, 0x78])))
     = File [0xFFFD, 0x78, LF] \<and>
   shown (excludeFileFromGit relativeBelow (wsWorld (File [0xFFFD, 0x78, LF]))
            (utf16 ''/ws/'' @ [0xD800, 0x78]))
     = Excluded [0xD800, 0x78]"
  by (simp add: excludeFileFromGit_def newContent_def wsWorld_def existsSync_def readFileSync_def
      writeFileSync_def mkdirSync_def pathToAdd_def relativeBelow_def replaceBackslashes_def
      utf16_def Let_def trim_def trimStart_def trimEnd_def isWhiteSpace_def
      isHighSurrogate_def isLowSurrogate_def)

lemma add_fails_when_directory_cannot_be_made:
  "excludeFileFromGit relativeBelow ((wsWorld Blocked)\<lparr>gitInfoDir := Blocked\<rparr>) (utf16 ''/ws/a.txt'')
     = \<lparr>returned = False, shown = ExcludeFailed, after = (wsWorld Blocked)\<lparr>gitInfoDir := Blocked\<rparr>\<rparr>"
  by (simp add: excludeFileFromGit_def wsWorld_def existsSync_def mkdirSync_def)

section \<open>The claims\<close>

text \<open>
  In the statements the spec's outcomes are read off the source: \<open>Added\<close> is
  \<open>returned = True\<close> with the message \<open>Excluded p\<close>, \<open>AlreadyPresent\<close> is
  \<open>returned = True\<close> with \<open>AlreadyExcluded p\<close>, \<open>Removed\<close> is \<open>returned = True\<close>
  with \<open>RemovedFromExclude p\<close>, \<open>NotFound\<close> is \<open>returned = False\<close> with
  \<open>NotInExcludeList p\<close>, and \<open>FileMissing\<close> is \<open>returned = False\<close> with
  \<open>ExcludeFileMissing\<close>. The entry of an addition is \<open>pathToAdd\<close> of the file path.
  The text of a file is decoded from UTF-8 and so is \<open>wellFormed\<close>; where a statement
  needs this of the prior content it says so.
\<close>

subsection \<open>C1: a line that only trims to the entry\<close>

text \<open>
  Claim C1 says that adding \<^verbatim>\<open>a.txt\<close> to a list whose file has the line
  \<^verbatim>\<open>" a.txt"\<close> reports that the entry is already present and writes nothing. The
  source tests \<^verbatim>\<open>lines.includes(pathToAdd)\<close> on the raw lines, without trimming them,
  while the list read back and the removal both trim. On the file \<^verbatim>\<open>" a.txt\n"\<close>,
  whose only entry is \<^verbatim>\<open>a.txt\<close>, the addition of \<^verbatim>\<open>/ws/a.txt\<close> answers that the
  path was excluded, rewrites the file to \<^verbatim>\<open>"a.txt\na.txt\n"\<close>, and the list read back
  then holds the entry twice.
\<close>

theorem add_misses_untrimmed_line:
  "utf16 '' a.txt'' \<in> set (split_lf (utf16 '' a.txt'' @ [LF])) \<and>
   trim (utf16 '' a.txt'') = utf16 ''a.txt'' \<and>
   getExcludedFiles (wsWorld (File (utf16 '' a.txt'' @ [LF]))) = [utf16 ''a.txt''] \<and>
   excludeFileFromGit relativeBelow (wsWorld (File (utf16 '' a.txt'' @ [LF]))) (utf16 ''/ws/a.txt'')
     = \<lparr>returned = True, shown = Excluded (utf16 ''a.txt''),
        after = wsWorld (File (utf16 ''a.txt'' @ [LF] @ utf16 ''a.txt'' @ [LF]))\<rparr> \<and>
   getExcludedFiles (wsWorld (File (utf16 ''a.txt'' @ [LF] @ utf16 ''a.txt'' @ [LF])))
     = [utf16 ''a.txt'', utf16 ''a.txt'']"
  by (simp add: excludeFileFromGit_def getExcludedFiles_def excludeEntries_def isEntryLine_def
      startsWith_def newContent_def wsWorld_def existsSync_def readFileSync_def writeFileSync_def
      pathToAdd_def relativeBelow_def replaceBackslashes_def utf16_def Let_def
      trim_def trimStart_def trimEnd_def isWhiteSpace_def isHighSurrogate_def isLowSurrogate_def)

subsection \<open>C2: adding, then removing\<close>

text \<open>
  Claim C2, amended: for every state of the file whose text, if there is one, is well
  formed, and every entry \<open>p\<close> that is trimmed, has no line break, has no unpaired
  surrogate and is not among the entries read before, adding \<open>p\<close> and then removing
  \<open>p\<close> leaves the entries read from the file as they were before the addition, in the
  same order (so the set of entries is the same as well). This holds whether or not the
  addition succeeds.
\<close>

theorem add_then_remove_restores:
  assumes ws: "workspaceFolders w = Some (workspaceRoot # others)"
    and decoded: "\<forall>c. excludeFile w = File c \<longrightarrow> wellFormed c"
    and p: "p = pathToAdd path_relative workspaceRoot filePath"
    and trimmed: "trim p = p"
    and line: "LF \<notin> set p"
    and paired: "wellFormed p"
    and fresh: "p \<notin> set (getExcludedFiles w)"
  shows "getExcludedFiles
           (after (removeFileFromExclude (after (excludeFileFromGit path_relative w filePath)) p))
         = getExcludedFiles w"
proof -
  let ?added = "after (excludeFileFromGit path_relative w filePath)"
  have read: "getExcludedFiles ?added
      = getExcludedFiles w
          @ (if shown (excludeFileFromGit path_relative w filePath) = Excluded p
             then excludeEntries p else [])"
    using ws decoded p paired by (rule getExcludedFiles_after_add(1))
  have "\<forall>c. excludeFile ?added = File c \<longrightarrow> wellFormed c"
    using ws decoded p paired by (rule getExcludedFiles_after_add(2))
  then have "getExcludedFiles (after (removeFileFromExclude ?added p))
      = filter (\<lambda>x. x \<noteq> p) (getExcludedFiles ?added)"
    by (rule getExcludedFiles_after_remove)
  also have "\<dots> = filter (\<lambda>x. x \<noteq> p) (getExcludedFiles w)"
    by (simp add: read excludeEntries_entry [OF line trimmed])
  also have "\<dots> = getExcludedFiles w"
    using fresh by (auto simp: filter_id_conv)
  finally show ?thesis .
qed

theorem add_then_remove_restores_witness:
  "workspaceFolders (wsWorld (File commentAndEntry)) = Some [utf16 ''/ws''] \<and>
   wellFormed commentAndEntry \<and>
   utf16 ''b.txt'' = pathToAdd relativeBelow (utf16 ''/ws'') (utf16 ''/ws/b.txt'') \<and>
   trim (utf16 ''b.txt'') = utf16 ''b.txt'' \<and>
   LF \<notin> set (utf16 ''b.txt'') \<and>
   wellFormed (utf16 ''b.txt'') \<and>
   utf16 ''b.txt'' \<notin> set (getExcludedFiles (wsWorld (File commentAndEntry))) \<and>
   getExcludedFiles (wsWorld (File commentAndEntry)) = [utf16 ''a.txt''] \<and>
   getExcludedFiles
     (after (removeFileFromExclude
        (after (excludeFileFromGit relativeBelow (wsWorld (File commentAndEntry))
           (utf16 ''/ws/b.txt'')))
        (utf16 ''b.txt'')))
     = [utf16 ''a.txt'']"
proof -
  have ws: "workspaceFolders (wsWorld (File commentAndEntry)) = Some [utf16 ''/ws'']"
    by (simp add: wsWorld_def)
  have wc: "wellFormed commentAndEntry"
    by (simp add: commentAndEntry_def utf16_def isHighSurrogate_def isLowSurrogate_def)
  then have d: "\<forall>c. excludeFile (wsWorld (File commentAndEntry)) = File c \<longrightarrow> wellFormed c"
    by (simp add: wsWorld_def)
  have p: "utf16 ''b.txt'' = pathToAdd relativeBelow (utf16 ''/ws'') (utf16 ''/ws/b.txt'')"
    by (simp add: pathToAdd_def relativeBelow_def replaceBackslashes_def utf16_def)
  have t: "trim (utf16 ''b.txt'') = utf16 ''b.txt''"
    by (simp add: utf16_def trim_def trimStart_def trimEnd_def isWhiteSpace_def)
  have l: "LF \<notin> set (utf16 ''b.txt'')"
    by (simp add: utf16_def)
  have wp: "wellFormed (utf16 ''b.txt'')"
    by (simp add: utf16_def isHighSurrogate_def isLowSurrogate_def)
  have g: "getExcludedFiles (wsWorld (File commentAndEntry)) = [utf16 ''a.txt'']"
    by (simp add: getExcludedFiles_def excludeEntries_def isEntryLine_def startsWith_def
        wsWorld_def existsSync_def readFileSync_def commentAndEntry_def utf16_def
        trim_def trimStart_def trimEnd_def isWhiteSpace_def)
  have f: "utf16 ''b.txt'' \<notin> set (getExcludedFiles (wsWorld (File commentAndEntry)))"
    by (simp add: g) (simp add: utf16_def)
  show ?thesis
    using ws wc p t l wp f g add_then_remove_restores [OF ws d p t l wp f] by simp
qed

text \<open>
  As stated, for every entry, the claim fails: when \<^verbatim>\<open>a.txt\<close> is already in the
  list the addition changes nothing and the removal then deletes the entry that was
  there before.
\<close>

theorem add_then_remove_counterexample:
  "set (getExcludedFiles
     (after (removeFileFromExclude
        (after (excludeFileFromGit relativeBelow (wsWorld (File (utf16 ''a.txt'' @ [LF])))
           (utf16 ''/ws/a.txt'')))
        (utf16 ''a.txt''))))
   \<noteq> set (getExcludedFiles (wsWorld (File (utf16 ''a.txt'' @ [LF]))))"
  by (simp add: excludeFileFromGit_def removeFileFromExclude_def getExcludedFiles_def
      excludeEntries_def isEntryLine_def startsWith_def newContent_def wsWorld_def
      existsSync_def readFileSync_def writeFileSync_def
      pathToAdd_def relativeBelow_def replaceBackslashes_def utf16_def Let_def
      trim_def trimStart_def trimEnd_def isWhiteSpace_def isHighSurrogate_def isLowSurrogate_def)

subsection \<open>C3: reading the list\<close>

text \<open>
  Claim C3: with a workspace folder open, \<open>getExcludedFiles\<close> returns the empty list
  when the file is absent; when the file exists it returns, in the order of the file, the
  trimmed lines that are not empty and do not begin with \<^verbatim>\<open>#\<close> (code unit 0x23). The
  lines are those of the whole content (joining them gives it back), and nothing is
  deduplicated: an entry is returned as many times as lines trim to it.
\<close>

theorem getExcludedFiles_lines:
  assumes "workspaceFolders w = Some (workspaceRoot # others)"
  shows "(excludeFile w = Absent \<longrightarrow> getExcludedFiles w = []) \<and>
         (\<forall>content. excludeFile w = File content \<longrightarrow>
            getExcludedFiles w
              = filter (\<lambda>l. l \<noteq> [] \<and> hd l \<noteq> 0x23) (map trim (split_lf content)) \<and>
            join_lf (split_lf content) = content \<and>
            (\<forall>e. e \<noteq> [] \<and> hd e \<noteq> 0x23 \<longrightarrow>
               count_list (getExcludedFiles w) e = count_list (map trim (split_lf content)) e))"
proof -
  have absent: "excludeFile w = Absent \<longrightarrow> getExcludedFiles w = []"
    by (simp add: getExcludedFiles_no_file)
  have onfile: "getExcludedFiles w
      = filter (\<lambda>l. l \<noteq> [] \<and> hd l \<noteq> 0x23) (map trim (split_lf content))"
    if "excludeFile w = File content" for content
    using assms that
    by (simp add: getExcludedFiles_File excludeEntries_def isEntryLine_iff [abs_def])
  show ?thesis
    using absent onfile by (simp add: join_lf_split_lf count_list_filter)
qed

theorem getExcludedFiles_lines_witness:
  "workspaceFolders (wsWorld (File sampleExclude)) = Some [utf16 ''/ws''] \<and>
   getExcludedFiles (wsWorld (File sampleExclude))
     = [utf16 ''b.txt'', utf16 ''a.txt'', utf16 ''b.txt'']"
proof -
  have ws: "workspaceFolders (wsWorld (File sampleExclude)) = Some [utf16 ''/ws'']"
    by (simp add: wsWorld_def)
  have "getExcludedFiles (wsWorld (File sampleExclude))
      = filter (\<lambda>l. l \<noteq> [] \<and> hd l \<noteq> 0x23) (map trim (split_lf sampleExclude))"
    using getExcludedFiles_lines [OF ws] by (simp add: wsWorld_def)
  also have "\<dots> = [utf16 ''b.txt'', utf16 ''a.txt'', utf16 ''b.txt'']"
    by (simp add: sampleExclude_def utf16_def trim_def trimStart_def trimEnd_def isWhiteSpace_def)
  finally show ?thesis using ws by simp
qed

subsection \<open>C4: removing an entry\<close>



subsection \<open>C5: the content written by an addition\<close>




subsection \<open>C6: adding twice\<close>

text \<open>
  Claim C6, amended: for every state of the file (a well-formed text, or no file) and
  every entry \<open>p\<close> without a line break and without an unpaired surrogate, if the first
  of two successive additions of \<open>p\<close> succeeds (returns true), the second answers that
  \<open>p\<close> is already excluded and leaves the world as the first addition left it. When
  moreover \<open>p\<close> is trimmed, not empty, does not begin with \<^verbatim>\<open>#\<close>, and before the
  additions either is not among the entries read or is a raw line and read exactly once,
  then after the two additions the entries read contain \<open>p\<close> exactly once.
\<close>

theorem add_twice:
  assumes ws: "workspaceFolders w = Some (workspaceRoot # others)"
    and node: "excludeFile w = File content \<or> excludeFile w = Absent \<and> content = []"
    and decoded: "wellFormed content"
    and p: "p = pathToAdd path_relative workspaceRoot filePath"
    and line: "LF \<notin> set p"
    and paired: "wellFormed p"
    and r1: "r1 = excludeFileFromGit path_relative w filePath"
    and r2: "r2 = excludeFileFromGit path_relative (after r1) filePath"
    and succeeds: "returned r1"
  shows "returned r2 \<and> shown r2 = AlreadyExcluded p \<and> after r2 = after r1 \<and>
         (trim p = p \<and> isEntryLine p \<and>
          (p \<notin> set (getExcludedFiles w)
             \<or> p \<in> set (split_lf content) \<and> count_list (getExcludedFiles w) p = 1)
          \<longrightarrow> count_list (getExcludedFiles (after r2)) p = 1)"
proof -
  have before: "getExcludedFiles w = excludeEntries content"
    using ws node by (rule getExcludedFiles_content)
  have dir: "gitInfoDir w \<noteq> Blocked"
    using succeeds ws unfolding r1 by (rule excludeFileFromGit_returned)
  let ?dir = "if existsSync (gitInfoDir w) then gitInfoDir w else Directory"
  have made: "?dir \<noteq> Blocked" "(if existsSync ?dir then ?dir else Directory) = ?dir"
    by (simp_all add: existsSync_def)
  have same: "toWellFormed (newContent content p) = newContent content p"
    using decoded paired by (simp add: toWellFormed_id wellFormed_newContent)
  let ?w1 = "w\<lparr>gitInfoDir := ?dir\<rparr>"
  note add = excludeFileFromGit_content [OF ws dir node, of path_relative filePath, folded p]
  show ?thesis
  proof (cases "p \<in> set (split_lf content)")
    case True
    then have a: "after r1 = ?w1" using add r1 by simp
    have ws1: "workspaceFolders ?w1 = Some (workspaceRoot # others)" using ws by simp
    have dir1: "gitInfoDir ?w1 \<noteq> Blocked" using made(1) by simp
    have node1: "excludeFile ?w1 = File content \<or> excludeFile ?w1 = Absent \<and> content = []"
      using node by simp
    from excludeFileFromGit_content [OF ws1 dir1 node1, of path_relative filePath, folded p] True
    have s: "r2 = \<lparr>returned = True, shown = AlreadyExcluded p, after = ?w1\<rparr>"
      using r2 a made(2) by simp
    have "count_list (getExcludedFiles (after r2)) p = 1"
      if "trim p = p" "isEntryLine p"
        "p \<notin> set (getExcludedFiles w)
          \<or> p \<in> set (split_lf content) \<and> count_list (getExcludedFiles w) p = 1"
    proof -
      from True that(1,2) have "p \<in> set (excludeEntries content)"
        by (auto simp: excludeEntries_def intro: rev_image_eqI)
      with that(3) before have "count_list (getExcludedFiles w) p = 1" by simp
      with s show ?thesis by simp
    qed
    with s a show ?thesis by simp
  next
    case False
    let ?w2 = "w\<lparr>gitInfoDir := ?dir, excludeFile := File (newContent content p)\<rparr>"
    from False have a: "after r1 = ?w2" using add r1 same by simp
    have ws2: "workspaceFolders ?w2 = Some (workspaceRoot # others)" using ws by simp
    have dir2: "gitInfoDir ?w2 \<noteq> Blocked" using made(1) by simp
    have node2: "excludeFile ?w2 = File (newContent content p)
        \<or> excludeFile ?w2 = Absent \<and> newContent content p = []"
      by simp
    have present: "p \<in> set (split_lf (newContent content p))"
      using line by (simp add: split_lf_newContent)
    from excludeFileFromGit_content [OF ws2 dir2 node2, of path_relative filePath, folded p] present
    have s: "r2 = \<lparr>returned = True, shown = AlreadyExcluded p, after = ?w2\<rparr>"
      using r2 a made(2) by simp
    have "count_list (getExcludedFiles (after r2)) p = 1"
      if "trim p = p" "isEntryLine p"
        "p \<notin> set (getExcludedFiles w)
          \<or> p \<in> set (split_lf content) \<and> count_list (getExcludedFiles w) p = 1"
    proof -
      from that(3) False before have "count_list (excludeEntries content) p = 0"
        by (simp add: count_list_0_iff)
      moreover have "getExcludedFiles ?w2 = excludeEntries content @ [p]"
        using getExcludedFiles_File [OF ws2, of "newContent content p"] that(1,2) line
        by (simp add: excludeEntries_newContent excludeEntries_entry)
      ultimately show ?thesis using s by simp
    qed
    with s a show ?thesis by simp
  qed
qed

theorem add_twice_witness:
  "workspaceFolders (wsWorld Absent) = Some [utf16 ''/ws''] \<and>
   excludeFile (wsWorld Absent) = Absent \<and>
   utf16 ''a.txt'' = pathToAdd relativeBelow (utf16 ''/ws'') (utf16 ''/ws/a.txt'') \<and>
   LF \<notin> set (utf16 ''a.txt'') \<and> wellFormed (utf16 ''a.txt'') \<and>
   returned (excludeFileFromGit relativeBelow (wsWorld Absent) (utf16 ''/ws/a.txt'')) \<and>
   trim (utf16 ''a.txt'') = utf16 ''a.txt'' \<and> isEntryLine (utf16 ''a.txt'') \<and>
   utf16 ''a.txt'' \<notin> set (getExcludedFiles (wsWorld Absent)) \<and>
   shown (excludeFileFromGit relativeBelow
            (after (excludeFileFromGit relativeBelow (wsWorld Absent) (utf16 ''/ws/a.txt'')))
            (utf16 ''/ws/a.txt''))
     = AlreadyExcluded (utf16 ''a.txt'') \<and>
   count_list
     (getExcludedFiles
        (after (excludeFileFromGit relativeBelow
           (after (excludeFileFromGit relativeBelow (wsWorld Absent) (utf16 ''/ws/a.txt'')))
           (utf16 ''/ws/a.txt''))))
     (utf16 ''a.txt'') = 1"
proof -
  have ws: "workspaceFolders (wsWorld Absent) = Some [utf16 ''/ws'']"
    and ab: "excludeFile (wsWorld Absent) = Absent"
    by (simp_all add: wsWorld_def)
  then have node: "excludeFile (wsWorld Absent) = File []
      \<or> excludeFile (wsWorld Absent) = Absent \<and> [] = ([]::jsstring)"
    by simp
  have wc: "wellFormed []" by simp
  have p: "utf16 ''a.txt'' = pathToAdd relativeBelow (utf16 ''/ws'') (utf16 ''/ws/a.txt'')"
    by (simp add: pathToAdd_def relativeBelow_def replaceBackslashes_def utf16_def)
  have l: "LF \<notin> set (utf16 ''a.txt'')"
    by (simp add: utf16_def)
  have wp: "wellFormed (utf16 ''a.txt'')"
    by (simp add: utf16_def isHighSurrogate_def isLowSurrogate_def)
  have ok: "returned (excludeFileFromGit relativeBelow (wsWorld Absent) (utf16 ''/ws/a.txt''))"
    by (simp add: excludeFileFromGit_def wsWorld_def existsSync_def readFileSync_def
        writeFileSync_def pathToAdd_def relativeBelow_def replaceBackslashes_def
        utf16_def Let_def)
  have t: "trim (utf16 ''a.txt'') = utf16 ''a.txt''"
    by (simp add: utf16_def trim_def trimStart_def trimEnd_def isWhiteSpace_def)
  have e: "isEntryLine (utf16 ''a.txt'')"
    by (simp add: isEntryLine_def startsWith_def utf16_def)
  have f: "utf16 ''a.txt'' \<notin> set (getExcludedFiles (wsWorld Absent))"
    by (simp add: getExcludedFiles_def wsWorld_def existsSync_def)
  note twice = add_twice [OF ws node wc p l wp refl refl ok]
  from twice have s: "shown (excludeFileFromGit relativeBelow
            (after (excludeFileFromGit relativeBelow (wsWorld Absent) (utf16 ''/ws/a.txt'')))
            (utf16 ''/ws/a.txt''))
     = AlreadyExcluded (utf16 ''a.txt'')"
    by blast
  from twice t e f have c: "count_list
     (getExcludedFiles
        (after (excludeFileFromGit relativeBelow
           (after (excludeFileFromGit relativeBelow (wsWorld Absent) (utf16 ''/ws/a.txt'')))
           (utf16 ''/ws/a.txt''))))
     (utf16 ''a.txt'') = 1"
    by blast
  from ws ab p l wp ok t e f s c show ?thesis by blast
qed

text \<open>
  As stated, for every normalized path, the claim fails: the path \<^verbatim>\<open>#a\<close> is written
  to the file as a line that the reading skips as a comment, so it occurs in the entries
  read zero times, not once.
\<close>

theorem add_twice_counterexample:
  "count_list
     (getExcludedFiles
        (after (excludeFileFromGit relativeBelow
           (after (excludeFileFromGit relativeBelow (wsWorld Absent) (utf16 ''/ws/#a'')))
           (utf16 ''/ws/#a''))))
     (utf16 ''#a'') \<noteq> 1"
  by (simp add: excludeFileFromGit_def getExcludedFiles_def
      excludeEntries_def isEntryLine_def startsWith_def newContent_def wsWorld_def
      existsSync_def readFileSync_def writeFileSync_def
      pathToAdd_def relativeBelow_def replaceBackslashes_def utf16_def Let_def
      trim_def trimStart_def trimEnd_def isWhiteSpace_def isHighSurrogate_def isLowSurrogate_def)

subsection \<open>C7: removing when the file is absent\<close>

text \<open>
  Claim C7: with a workspace folder open and no file at \<^verbatim>\<open>.git/info/exclude\<close>, the
  removal of any target returns false with the warning that the exclude file does not
  exist, and the world after is the world before: the file is not created.
\<close>

theorem remove_missing_file:
  assumes "workspaceFolders w = Some (workspaceRoot # others)"
    and "excludeFile w = Absent"
  shows "removeFileFromExclude w e = \<lparr>returned = False, shown = ExcludeFileMissing, after = w\<rparr>"
  using assms by (simp add: removeFileFromExclude_def existsSync_def)

theorem remove_missing_file_witness:
  "workspaceFolders (wsWorld Absent) = Some [utf16 ''/ws''] \<and>
   excludeFile (wsWorld Absent) = Absent \<and>
   removeFileFromExclude (wsWorld Absent) (utf16 ''a.txt'')
     = \<lparr>returned = False, shown = ExcludeFileMissing, after = wsWorld Absent\<rparr>"
proof -
  have ws: "workspaceFolders (wsWorld Absent) = Some [utf16 ''/ws'']"
    and ab: "excludeFile (wsWorld Absent) = Absent"
    by (simp_all add: wsWorld_def)
  show ?thesis
    using ws ab remove_missing_file [OF ws ab, of "utf16 ''a.txt''"] by simp
qed

subsection \<open>C8: the view without a workspace folder\<close>

text \<open>
  Claim C8, amended: when no workspace folder is open (the folders are undefined or an
  empty array), the list read is empty and the root query of the view returns exactly
  one item, the placeholder, which has no command; it does not return zero items.
\<close>

theorem no_workspace_placeholder:
  assumes "workspaceFolders w = None \<or> workspaceFolders w = Some []"
  shows "getExcludedFiles w = [] \<and>
         getChildren localeCompare w None
           = Inr [\<lparr>label = noExcludedFilesLabel, collapsibleState = CollapsibleNone,
                   iconPath = ''info'', command = None, tooltip = noExcludedFilesLabel,
                   contextValue = ''gitAwayItem''\<rparr>]"
  using assms
  by (auto simp: getChildren_def getExcludedFiles_def newGitAwayTreeItem_def)

theorem no_workspace_placeholder_witness:
  "workspaceFolders noWorkspaceWorld = None \<and>
   getExcludedFiles noWorkspaceWorld = [] \<and>
   getChildren codeUnitCompare noWorkspaceWorld None
     = Inr [\<lparr>label = noExcludedFilesLabel, collapsibleState = CollapsibleNone,
             iconPath = ''info'', command = None, tooltip = noExcludedFilesLabel,
             contextValue = ''gitAwayItem''\<rparr>]"
proof -
  have n: "workspaceFolders noWorkspaceWorld = None"
    by (simp add: noWorkspaceWorld_def)
  then have "workspaceFolders noWorkspaceWorld = None \<or> workspaceFolders noWorkspaceWorld = Some []"
    by simp
  from no_workspace_placeholder [OF this, of codeUnitCompare] n show ?thesis by simp
qed

text \<open>
  As stated, the claim fails: the test for an empty list comes before the test for the
  folders, and without a folder the list is empty, so the placeholder is returned.
\<close>

theorem no_workspace_counterexample:
  "getChildren codeUnitCompare noWorkspaceWorld None \<noteq> Inr []"
  by (simp add: getChildren_def getExcludedFiles_def noWorkspaceWorld_def)

subsection \<open>C9: the placeholder and the sorted items\<close>

text \<open>
  Claim C9: for a consistent comparator, when the list read is empty the root query
  returns exactly one item, the placeholder, and it has no command; when the list is not
  empty it returns items that are sorted by the comparator on their labels, and the
  labels are the entries read, each as often as it was read.
\<close>

theorem getChildren_placeholder_or_sorted:
  assumes "consistentComparator localeCompare"
  shows "(getExcludedFiles w = [] \<longrightarrow>
            (\<exists>item. getChildren localeCompare w None = Inr [item] \<and>
                    label item = noExcludedFilesLabel \<and> command item = None)) \<and>
         (getExcludedFiles w \<noteq> [] \<longrightarrow>
            (\<exists>items. getChildren localeCompare w None = Inr items \<and>
                     sorted_wrt (\<lambda>a b. localeCompare (label a) (label b) \<le> 0) items \<and>
                     mset (map label items) = mset (getExcludedFiles w)))"
proof -
  let ?cmp = "\<lambda>a b. localeCompare (label a) (label b)"
  have total: "?cmp a b \<le> 0 \<or> ?cmp b a \<le> 0" for a b :: GitAwayTreeItem
    using assms unfolding consistentComparator_def by blast
  have trans: "?cmp a b \<le> 0 \<Longrightarrow> ?cmp b c \<le> 0 \<Longrightarrow> ?cmp a c \<le> 0"
    for a b c :: GitAwayTreeItem
    using assms unfolding consistentComparator_def by blast
  have empty: "getChildren localeCompare w None
      = Inr [newGitAwayTreeItem noExcludedFilesLabel CollapsibleNone ''info'' None]"
    if "getExcludedFiles w = []"
    using that by (simp add: getChildren_def)
  have nonempty: "\<exists>items. getChildren localeCompare w None = Inr items \<and>
      sorted_wrt (\<lambda>a b. ?cmp a b \<le> 0) items \<and>
      mset (map label items) = mset (getExcludedFiles w)"
    if ne: "getExcludedFiles w \<noteq> []"
  proof -
    from ne obtain workspaceRoot others
      where ws: "workspaceFolders w = Some (workspaceRoot # others)"
      by (cases "workspaceFolders w"; cases "the (workspaceFolders w)")
         (auto simp: getExcludedFiles_def)
    let ?files = "map (fileItem w workspaceRoot) (getExcludedFiles w)"
    have g: "getChildren localeCompare w None = Inr (array_sort ?cmp ?files)"
      using ne ws by (simp add: getChildren_def Let_def)
    have s: "sorted_wrt (\<lambda>a b. ?cmp a b \<le> 0) (array_sort ?cmp ?files)"
      by (rule sorted_wrt_array_sort) (use total trans in blast)+
    have l: "map label ?files = getExcludedFiles w"
      by (simp add: label_fileItem comp_def)
    have "mset (map label (array_sort ?cmp ?files)) = mset (map label ?files)"
      by (rule mset_map_array_sort)
    with l have "mset (map label (array_sort ?cmp ?files)) = mset (getExcludedFiles w)"
      by simp
    with g s show ?thesis by blast
  qed
  from empty nonempty show ?thesis
    by (auto simp: newGitAwayTreeItem_def)
qed

theorem getChildren_placeholder_or_sorted_witness:
  "consistentComparator codeUnitCompare \<and>
   getExcludedFiles (wsWorld Absent) = [] \<and>
   (\<exists>item. getChildren codeUnitCompare (wsWorld Absent) None = Inr [item] \<and>
           label item = noExcludedFilesLabel \<and> command item = None) \<and>
   getExcludedFiles (wsWorld (File zebraAppleBanana))
     = [utf16 ''zebra.txt'', utf16 ''apple.txt'', utf16 ''Banana.txt''] \<and>
   (\<exists>items. getChildren codeUnitCompare (wsWorld (File zebraAppleBanana)) None = Inr items \<and>
            sorted_wrt (\<lambda>a b. codeUnitCompare (label a) (label b) \<le> 0) items \<and>
            mset (map label items) = mset (getExcludedFiles (wsWorld (File zebraAppleBanana))))"
proof -
  note c = consistent_codeUnitCompare
  have e: "getExcludedFiles (wsWorld Absent) = []"
    by (simp add: getExcludedFiles_def wsWorld_def existsSync_def)
  have z: "getExcludedFiles (wsWorld (File zebraAppleBanana))
      = [utf16 ''zebra.txt'', utf16 ''apple.txt'', utf16 ''Banana.txt'']"
    by (simp add: getExcludedFiles_def excludeEntries_def isEntryLine_def startsWith_def
        wsWorld_def existsSync_def readFileSync_def zebraAppleBanana_def utf16_def
        trim_def trimStart_def trimEnd_def isWhiteSpace_def)
  then have ne: "getExcludedFiles (wsWorld (File zebraAppleBanana)) \<noteq> []" by simp
  from getChildren_placeholder_or_sorted [OF c, of "wsWorld Absent"] e
  have p: "\<exists>item. getChildren codeUnitCompare (wsWorld Absent) None = Inr [item] \<and>
           label item = noExcludedFilesLabel \<and> command item = None"
    by blast
  from getChildren_placeholder_or_sorted [OF c, of "wsWorld (File zebraAppleBanana)"] ne
  have s: "\<exists>items. getChildren codeUnitCompare (wsWorld (File zebraAppleBanana)) None = Inr items \<and>
            sorted_wrt (\<lambda>a b. codeUnitCompare (label a) (label b) \<le> 0) items \<and>
            mset (map label items) = mset (getExcludedFiles (wsWorld (File zebraAppleBanana)))"
    by blast
  from c e p z s show ?thesis by blast
qed

subsection \<open>C10: what an addition keeps of the old content\<close>

text \<open>
  Claim C10: every addition that answers that the path was excluded has written the
  trimmed old content, LF, the entry, LF (the entry and LF alone when the trimmed old
  content is empty); the file then holds what this string decodes to, which is the
  string itself whenever the old content and the entry are well formed. The trimmed old
  content is the old content without a prefix and a suffix made of white space only, and
  it neither begins nor ends with white space: what lies between, comments and blank
  lines included, is kept as it was.
\<close>

theorem add_rewrites_trimmed_content:
  assumes "shown (excludeFileFromGit path_relative w filePath) = Excluded p"
  shows "\<exists>workspaceRoot others content pre post.
           workspaceFolders w = Some (workspaceRoot # others) \<and>
           p = pathToAdd path_relative workspaceRoot filePath \<and>
           (excludeFile w = File content \<or> excludeFile w = Absent \<and> content = []) \<and>
           excludeFile (after (excludeFileFromGit path_relative w filePath))
             = File (toWellFormed
                 (if trim content = [] then p @ [LF] else trim content @ [LF] @ p @ [LF])) \<and>
           (wellFormed content \<and> wellFormed p \<longrightarrow>
              toWellFormed (if trim content = [] then p @ [LF] else trim content @ [LF] @ p @ [LF])
                = (if trim content = [] then p @ [LF] else trim content @ [LF] @ p @ [LF])) \<and>
           content = pre @ trim content @ post \<and>
           (\<forall>c\<in>set pre. isWhiteSpace c) \<and> (\<forall>c\<in>set post. isWhiteSpace c) \<and>
           (trim content \<noteq> [] \<longrightarrow>
              \<not> isWhiteSpace (hd (trim content)) \<and> \<not> isWhiteSpace (last (trim content)))"
proof -
  from assms obtain workspaceRoot others
    where ws: "workspaceFolders w = Some (workspaceRoot # others)"
    by (cases "workspaceFolders w"; cases "the (workspaceFolders w)")
       (auto simp: excludeFileFromGit_def)
  from assms ws have dir: "gitInfoDir w \<noteq> Blocked"
    by (auto simp: excludeFileFromGit_blocked_dir)
  have nd: "excludeFile w \<noteq> Directory \<and> excludeFile w \<noteq> Blocked"
  proof (rule ccontr)
    assume "\<not> (excludeFile w \<noteq> Directory \<and> excludeFile w \<noteq> Blocked)"
    then have u: "excludeFile w = Directory \<or> excludeFile w = Blocked" by blast
    from ws dir u have "\<forall>q. shown (excludeFileFromGit path_relative w filePath) \<noteq> Excluded q"
      by (auto simp: excludeFileFromGit_def made_dir existsSync_simps readFileSync_def
          writeFileSync_def Let_def)
    with assms show False by blast
  qed
  define content where "content = (case excludeFile w of File c \<Rightarrow> c | _ \<Rightarrow> [])"
  from nd have node: "excludeFile w = File content \<or> excludeFile w = Absent \<and> content = []"
    by (cases "excludeFile w") (simp_all add: content_def)
  note r = excludeFileFromGit_content [OF ws dir node, of path_relative filePath]
  from assms r have p: "p = pathToAdd path_relative workspaceRoot filePath"
    and new: "pathToAdd path_relative workspaceRoot filePath \<notin> set (split_lf content)"
    by (auto split: if_splits)
  have shape: "newContent content p
      = (if trim content = [] then p @ [LF] else trim content @ [LF] @ p @ [LF])"
    by (simp add: newContent_def)
  from r new p
  have "excludeFile (after (excludeFileFromGit path_relative w filePath))
      = File (toWellFormed (newContent content p))"
    by simp
  then have wr: "excludeFile (after (excludeFileFromGit path_relative w filePath))
      = File (toWellFormed
          (if trim content = [] then p @ [LF] else trim content @ [LF] @ p @ [LF]))"
    by (simp only: shape)
  have "wellFormed content \<and> wellFormed p \<longrightarrow>
      toWellFormed (newContent content p) = newContent content p"
    by (simp add: toWellFormed_id wellFormed_newContent)
  then have same: "wellFormed content \<and> wellFormed p \<longrightarrow>
      toWellFormed (if trim content = [] then p @ [LF] else trim content @ [LF] @ p @ [LF])
        = (if trim content = [] then p @ [LF] else trim content @ [LF] @ p @ [LF])"
    by (simp only: shape)
  obtain pre post where d: "content = pre @ trim content @ post"
    "\<forall>c\<in>set pre. isWhiteSpace c" "\<forall>c\<in>set post. isWhiteSpace c"
    using trim_decomp [of content] by blast
  have e: "trim content \<noteq> [] \<longrightarrow>
      \<not> isWhiteSpace (hd (trim content)) \<and> \<not> isWhiteSpace (last (trim content))"
    using trim_ends by blast
  from ws p node wr same d e show ?thesis by blast
qed

theorem add_rewrites_trimmed_content_witness:
  "shown (excludeFileFromGit relativeBelow (wsWorld (File commentAndEntry)) (utf16 ''/ws/b.txt''))
     = Excluded (utf16 ''b.txt'') \<and>
   wellFormed commentAndEntry \<and> wellFormed (utf16 ''b.txt'') \<and>
   excludeFile (after (excludeFileFromGit relativeBelow (wsWorld (File commentAndEntry))
       (utf16 ''/ws/b.txt'')))
     = File (utf16 ''# local'' @ [LF, LF] @ utf16 ''a.txt'' @ [LF] @ utf16 ''b.txt'' @ [LF])"
proof -
  have s: "shown (excludeFileFromGit relativeBelow (wsWorld (File commentAndEntry))
      (utf16 ''/ws/b.txt'')) = Excluded (utf16 ''b.txt'')"
    by (simp add: excludeFileFromGit_def wsWorld_def existsSync_def readFileSync_def
        writeFileSync_def pathToAdd_def relativeBelow_def replaceBackslashes_def
        commentAndEntry_def utf16_def Let_def)
  have fi: "excludeFile (wsWorld (File commentAndEntry)) = File commentAndEntry"
    by (simp add: wsWorld_def)
  have wc: "wellFormed commentAndEntry"
    by (simp add: commentAndEntry_def utf16_def isHighSurrogate_def isLowSurrogate_def)
  have wp: "wellFormed (utf16 ''b.txt'')"
    by (simp add: utf16_def isHighSurrogate_def isLowSurrogate_def)
  have t: "trim commentAndEntry = utf16 ''# local'' @ [LF, LF] @ utf16 ''a.txt''"
    by (simp add: commentAndEntry_def utf16_def trim_def trimStart_def trimEnd_def isWhiteSpace_def)
  obtain content where c:
    "excludeFile (wsWorld (File commentAndEntry)) = File content
       \<or> excludeFile (wsWorld (File commentAndEntry)) = Absent \<and> content = []"
    "excludeFile (after (excludeFileFromGit relativeBelow (wsWorld (File commentAndEntry))
        (utf16 ''/ws/b.txt'')))
      = File (toWellFormed (if trim content = [] then utf16 ''b.txt'' @ [LF]
              else trim content @ [LF] @ utf16 ''b.txt'' @ [LF]))"
    "wellFormed content \<and> wellFormed (utf16 ''b.txt'') \<longrightarrow>
       toWellFormed (if trim content = [] then utf16 ''b.txt'' @ [LF]
              else trim content @ [LF] @ utf16 ''b.txt'' @ [LF])
       = (if trim content = [] then utf16 ''b.txt'' @ [LF]
              else trim content @ [LF] @ utf16 ''b.txt'' @ [LF])"
    using add_rewrites_trimmed_content [OF s] by blast
  from c(1) fi have eq: "content = commentAndEntry" by simp
  from c(2,3) wc wp
  have "excludeFile (after (excludeFileFromGit relativeBelow (wsWorld (File commentAndEntry))
        (utf16 ''/ws/b.txt'')))
      = File (if trim commentAndEntry = [] then utf16 ''b.txt'' @ [LF]
              else trim commentAndEntry @ [LF] @ utf16 ''b.txt'' @ [LF])"
    unfolding eq by simp
  with t s wc wp show ?thesis by (simp add: utf16_def)
qed

end
